theory Spec2Isabelle
  imports Complex_Main
begin

section \<open>Data model\<close>

text \<open>
  The exceptions the notebook code can raise by itself: the \<^verbatim>\<open>assert\<close> of
  \<^verbatim>\<open>qsp_polynomial\<close>, indexing an empty list in \<^verbatim>\<open>qsp_circuit\<close>,
  \<^verbatim>\<open>math.acos\<close> outside its domain in \<^verbatim>\<open>WGate\<close>, and the division of
  \<^verbatim>\<open>simulate_polynomial\<close>; and \<open>BackendError\<close> for an exception raised inside a call
  of the execution backend, which the notebook code does not catch.
\<close>

datatype error = AssertionError | IndexError | ValueError | ZeroDivisionError | BackendError

text \<open>
  A 2x2 complex matrix (\<^verbatim>\<open>sp.Matrix\<close>, or the array of \<^verbatim>\<open>Operator(circ).data\<close>),
  given by its four entries in row-major order. Python floats are read as real numbers and
  SymPy expressions by the complex number they denote.
\<close>

datatype mat2 = Mat2 (m00: complex) (m01: complex) (m10: complex) (m11: complex)

instantiation mat2 :: monoid_mult
begin

definition one_mat2 :: mat2 where
  "one_mat2 = Mat2 1 0 0 1"

definition times_mat2 :: "mat2 \<Rightarrow> mat2 \<Rightarrow> mat2" where
  "times_mat2 A B =
     Mat2 (m00 A * m00 B + m01 A * m10 B) (m00 A * m01 B + m01 A * m11 B)
          (m10 A * m00 B + m11 A * m10 B) (m10 A * m01 B + m11 A * m11 B)"

instance
proof
  fix a b c :: mat2
  show "a * b * c = a * (b * c)"
    by (simp add: times_mat2_def algebra_simps)
  show "1 * a = a"
    by (simp add: times_mat2_def one_mat2_def)
  show "a * 1 = a"
    by (simp add: times_mat2_def one_mat2_def)
qed

end

text \<open>The conjugate transpose of a matrix.\<close>

definition adjoint :: "mat2 \<Rightarrow> mat2" where
  "adjoint A = Mat2 (cnj (m00 A)) (cnj (m10 A)) (cnj (m01 A)) (cnj (m11 A))"

section \<open>The symbolic matrices\<close>

text \<open>
  \<^verbatim>\<open>expected_w(x)\<close> is
  \<^verbatim>\<open>sp.Matrix([[x, 1j * sp.sqrt(1 - x**2)], [1j * sp.sqrt(1 - x**2), x]])\<close>.
  The argument is a SymPy symbol or a number; \<^verbatim>\<open>sp.sqrt\<close> is the principal
  square root, which is \<^const>\<open>csqrt\<close>.
\<close>

definition expected_w :: "complex \<Rightarrow> mat2" where
  "expected_w x = Mat2 x (\<i> * csqrt (1 - x\<^sup>2)) (\<i> * csqrt (1 - x\<^sup>2)) x"

text \<open>
  \<^verbatim>\<open>expected_s(phi)\<close> is
  \<^verbatim>\<open>sp.diag([sp.exp(1j * phi), sp.exp(-1j * phi)], unpack=True)\<close>.
\<close>

definition expected_s :: "real \<Rightarrow> mat2" where
  "expected_s phi = Mat2 (exp (\<i> * complex_of_real phi)) 0 0 (exp (- \<i> * complex_of_real phi))"

text \<open>
  The loop \<^verbatim>\<open>for phi in phases[1:]: poly = poly * expected_w(x) * expected_s(phi)\<close>
  of \<^verbatim>\<open>qsp_polynomial\<close>, with the accumulator \<^verbatim>\<open>poly\<close>.
\<close>

fun qsp_loop :: "complex \<Rightarrow> mat2 \<Rightarrow> real list \<Rightarrow> mat2" where
  "qsp_loop x poly [] = poly"
| "qsp_loop x poly (phi # phis) = qsp_loop x (poly * expected_w x * expected_s phi) phis"

text \<open>
  \<^verbatim>\<open>qsp_polynomial(x, phases)\<close>: the assertion on \<^verbatim>\<open>phases\<close>, the product started
  at \<^verbatim>\<open>expected_s(phases[0])\<close>, and the triple \<^verbatim>\<open>(poly, poly[0, 0], poly[0, 1])\<close>.
  \<^verbatim>\<open>sp.simplify\<close> rewrites the expression and keeps the value it denotes, so it is the
  identity here.
\<close>

fun qsp_polynomial :: "complex \<Rightarrow> real list \<Rightarrow> error + (mat2 \<times> complex \<times> complex)" where
  "qsp_polynomial x [] = Inl AssertionError"
| "qsp_polynomial x (phi0 # phis) =
     (let poly = qsp_loop x (expected_s phi0) phis
      in Inr (poly, m00 poly, m01 poly))"

text \<open>
  The product as the specification words it: \<open>S(\<phi>\<^sub>0) \<cdot> \<Prod>\<^sub>i [W(x) \<cdot> S(\<phi>\<^sub>i)]\<close> for
  \<open>i = 1 \<dots> d\<close>, with \<open>W(x)\<close> of entries \<open>(x, i\<surd>(1 - x\<^sup>2); i\<surd>(1 - x\<^sup>2), x)\<close> and
  \<open>S(\<phi>) = diag(e\<^sup>i\<^sup>\<phi>, e\<^sup>-\<^sup>i\<^sup>\<phi>)\<close>. The product of the bracketed factors is taken as one
  list product, independently of the loop of the code.
\<close>

definition spec_W :: "complex \<Rightarrow> mat2" where
  "spec_W x = Mat2 x (\<i> * csqrt (1 - x\<^sup>2)) (\<i> * csqrt (1 - x\<^sup>2)) x"

definition spec_S :: "real \<Rightarrow> mat2" where
  "spec_S phi = Mat2 (cis phi) 0 0 (cis (- phi))"

definition spec_unitary :: "complex \<Rightarrow> real list \<Rightarrow> mat2" where
  "spec_unitary x phases =
     spec_S (hd phases) * prod_list (map (\<lambda>phi. spec_W x * spec_S phi) (tl phases))"

text \<open>
  A polynomial in \<open>x\<close> is given by the list of its coefficients, lowest degree first; a
  list of length \<open>n\<close> denotes a polynomial of degree at most \<open>n - 1\<close>.
\<close>

fun poly_eval :: "complex list \<Rightarrow> complex \<Rightarrow> complex" where
  "poly_eval [] x = 0"
| "poly_eval (c # cs) x = c + x * poly_eval cs x"

fun poly_add :: "complex list \<Rightarrow> complex list \<Rightarrow> complex list" where
  "poly_add [] bs = bs"
| "poly_add (a # as) [] = a # as"
| "poly_add (a # as) (b # bs) = (a + b) # poly_add as bs"

text \<open>
  The coefficients of the top row of the product after one more factor \<open>W(x) \<cdot> S(\<phi>)\<close>:
  from the top row \<open>(P, i Q \<surd>(1 - x\<^sup>2))\<close> to
  \<open>(e\<^sup>i\<^sup>\<phi> (x P - (1 - x\<^sup>2) Q), i e\<^sup>-\<^sup>i\<^sup>\<phi> (P + x Q) \<surd>(1 - x\<^sup>2))\<close>.
\<close>

definition pq_step :: "real \<Rightarrow> complex list \<times> complex list \<Rightarrow> complex list \<times> complex list" where
  "pq_step phi pq =
     (map ((*) (cis phi))
        (poly_add (0 # fst pq) (poly_add (map uminus (snd pq)) (0 # 0 # snd pq))),
      map ((*) (cis (- phi))) (poly_add (fst pq) (0 # snd pq)))"

fun pq_coeffs :: "complex list \<times> complex list \<Rightarrow> real list \<Rightarrow> complex list \<times> complex list" where
  "pq_coeffs pq [] = pq"
| "pq_coeffs pq (phi # phis) = pq_coeffs (pq_step phi pq) phis"

section \<open>The circuits\<close>

text \<open>
  A single-qubit circuit is the list of its gates in the order they are applied. The two
  gates used are Qiskit's \<^verbatim>\<open>rx(theta, 0)\<close> and \<^verbatim>\<open>rz(theta, 0)\<close>.
\<close>

datatype gate = RX real | RZ real

type_synonym circuit = "gate list"

text \<open>
  \<^verbatim>\<open>WGate(x)\<close> is a circuit of one \<^verbatim>\<open>rx(-2.0 * acos(x), 0)\<close>; \<^verbatim>\<open>math.acos\<close> raises
  \<^verbatim>\<open>ValueError\<close> outside \<open>[-1, 1]\<close>. \<^verbatim>\<open>SGate(phi)\<close> is a circuit of one
  \<^verbatim>\<open>rz(-2.0 * phi, 0)\<close>.
\<close>

definition WGate :: "real \<Rightarrow> error + circuit" where
  "WGate x = (if x < - 1 \<or> 1 < x then Inl ValueError else Inr [RX (- 2 * arccos x)])"

definition SGate :: "real \<Rightarrow> circuit" where
  "SGate phi = [RZ (- 2 * phi)]"

text \<open>
  The loop \<^verbatim>\<open>for phi in np_phases[1:]\<close> of \<^verbatim>\<open>qsp_circuit\<close>: each round appends
  \<^verbatim>\<open>WGate(x)\<close>, then \<^verbatim>\<open>SGate(phi)\<close>.
\<close>

fun circuit_loop :: "real \<Rightarrow> circuit \<Rightarrow> real list \<Rightarrow> error + circuit" where
  "circuit_loop x circ [] = Inr circ"
| "circuit_loop x circ (phi # phis) =
     (case WGate x of
        Inl e \<Rightarrow> Inl e
      | Inr w \<Rightarrow> circuit_loop x (circ @ w @ SGate phi) phis)"

text \<open>
  \<^verbatim>\<open>qsp_circuit(x, phases)\<close>: the phases are reversed, \<^verbatim>\<open>np_phases[0]\<close> raises
  \<^verbatim>\<open>IndexError\<close> on the empty list, and the loop runs over the rest.
\<close>

definition qsp_circuit :: "real \<Rightarrow> real list \<Rightarrow> error + circuit" where
  "qsp_circuit x phases =
     (let np_phases = rev phases
      in case np_phases of
           [] \<Rightarrow> Inl IndexError
         | phi0 # rest \<Rightarrow> circuit_loop x (SGate phi0) rest)"

text \<open>
  Modelled from the spec: the matrices of the rotation gates and the unitary of a circuit,
  which the notebook takes from Qiskit (\<^verbatim>\<open>Operator(circ).data\<close>). \<open>R\<^sub>x(\<theta>)\<close> has entries
  \<open>(cos(\<theta>/2), -i sin(\<theta>/2); -i sin(\<theta>/2), cos(\<theta>/2))\<close>, \<open>R\<^sub>z(\<theta>)\<close> is
  \<open>diag(e\<^sup>-\<^sup>i\<^sup>\<theta>\<^sup>/\<^sup>2, e\<^sup>i\<^sup>\<theta>\<^sup>/\<^sup>2)\<close>, and the unitary of a circuit is the product of its gates'
  matrices with the gate applied first as the rightmost factor. The notebook states
  \<open>R\<^sub>x(-2 cos\<^sup>-\<^sup>1 x) = W(x)\<close> and \<open>R\<^sub>z(-2\<phi>) = S(\<phi>)\<close> and asserts both on random inputs.
\<close>

fun gate_matrix :: "gate \<Rightarrow> mat2" where
  "gate_matrix (RX theta) =
     Mat2 (complex_of_real (cos (theta / 2))) (- \<i> * complex_of_real (sin (theta / 2)))
          (- \<i> * complex_of_real (sin (theta / 2))) (complex_of_real (cos (theta / 2)))"
| "gate_matrix (RZ theta) = Mat2 (cis (- theta / 2)) 0 0 (cis (theta / 2))"

definition Operator :: "circuit \<Rightarrow> mat2" where
  "Operator circ = foldl (\<lambda>U g. gate_matrix g * U) 1 circ"

text \<open>\<^verbatim>\<open>np.allclose\<close>-style elementwise agreement within an absolute tolerance.\<close>

definition close_within :: "real \<Rightarrow> mat2 \<Rightarrow> mat2 \<Rightarrow> bool" where
  "close_within eps A B \<longleftrightarrow>
     cmod (m00 A - m00 B) \<le> eps \<and> cmod (m01 A - m01 B) \<le> eps \<and>
     cmod (m10 A - m10 B) \<le> eps \<and> cmod (m11 A - m11 B) \<le> eps"

text \<open>
  Modelled from the spec: the ideal probability of the outcome \<open>0\<close> when the circuit is run
  on the initial state \<open>|0\<rangle>\<close> and measured, the squared magnitude of the amplitude
  \<open>\<langle>0|U|0\<rangle>\<close> (the notebook: \<open>P(x) = \<langle>0|U|0\<rangle>\<close>, the projection to the top-left corner).
  The notebook obtains estimates of it from the execution backend; the sampling itself is
  not part of the model.
\<close>

definition probability_zero :: "circuit \<Rightarrow> real" where
  "probability_zero circ = (cmod (m00 (Operator circ)))\<^sup>2"

section \<open>Running the circuits\<close>

text \<open>
  The counts of a job (\<^verbatim>\<open>job.result().get_counts()\<close>): a dictionary from the measured
  bit-strings to the number of their occurrences, as the list of its items.
  \<^verbatim>\<open>counts.get(k, d)\<close> looks a key up with a default and \<^verbatim>\<open>counts.shots()\<close> is the sum
  of the values.
\<close>

type_synonym counts = "(string \<times> nat) list"

definition counts_get :: "counts \<Rightarrow> string \<Rightarrow> nat \<Rightarrow> nat" where
  "counts_get counts k d = (case map_of counts k of None \<Rightarrow> d | Some v \<Rightarrow> v)"

definition counts_shots :: "counts \<Rightarrow> nat" where
  "counts_shots counts = sum_list (map snd counts)"

text \<open>
  \<^verbatim>\<open>probability = counts.get('0', 0) / counts.shots()\<close>, the estimate computed for one
  job; the division raises \<^verbatim>\<open>ZeroDivisionError\<close> when the counts are empty.
\<close>

definition probability :: "counts \<Rightarrow> error + real" where
  "probability counts =
     (if counts_shots counts = 0 then Inl ZeroDivisionError
      else Inr (real (counts_get counts ''0'' 0) / real (counts_shots counts)))"

text \<open>
  Modelled from the spec: the execution backend, an opaque collaborator with
  \<open>submit(circuit, shots) \<rightarrow> job\<close> and \<open>job.result() \<rightarrow> counts\<close>
  (\<^verbatim>\<open>backend.run(circuit, shots=num_shots)\<close> and \<^verbatim>\<open>job.result().get_counts()\<close> in the
  notebook). Both operations act on a state of the backend, which is threaded through the
  calls, and both can raise.
\<close>

record ('c, 'j, 's) backend =
  run :: "'c \<Rightarrow> nat \<Rightarrow> 's \<Rightarrow> (error + 'j) \<times> 's"
  result :: "'j \<Rightarrow> 's \<Rightarrow> (error + counts) \<times> 's"

text \<open>
  \<^verbatim>\<open>jobs = [backend.run(circuit_function(x), shots=num_shots) for x in xs]\<close>: for each
  \<open>x\<close> in turn the circuit is built and then submitted; an exception of either call ends
  the comprehension.
\<close>

fun submit_jobs ::
  "('c, 'j, 's) backend \<Rightarrow> ('x \<Rightarrow> error + 'c) \<Rightarrow> nat \<Rightarrow> 'x list \<Rightarrow> 'j list \<Rightarrow> 's \<Rightarrow>
   (error + 'j list) \<times> 's" where
  "submit_jobs B circuit_function num_shots [] jobs s = (Inr jobs, s)"
| "submit_jobs B circuit_function num_shots (x # xs) jobs s =
     (case circuit_function x of
        Inl e \<Rightarrow> (Inl e, s)
      | Inr c \<Rightarrow>
          (case run B c num_shots s of
             (Inl e, s') \<Rightarrow> (Inl e, s')
           | (Inr job, s') \<Rightarrow> submit_jobs B circuit_function num_shots xs (jobs @ [job]) s'))"

text \<open>
  The loop \<^verbatim>\<open>for job in jobs\<close>: fetch the counts, derive the probability of the
  outcome \<^verbatim>\<open>'0'\<close>, append it to \<^verbatim>\<open>ys_simulated\<close>.
\<close>

fun await_jobs ::
  "('c, 'j, 's) backend \<Rightarrow> 'j list \<Rightarrow> real list \<Rightarrow> 's \<Rightarrow> (error + real list) \<times> 's" where
  "await_jobs B [] ys_simulated s = (Inr ys_simulated, s)"
| "await_jobs B (job # jobs) ys_simulated s =
     (case result B job s of
        (Inl e, s') \<Rightarrow> (Inl e, s')
      | (Inr counts, s') \<Rightarrow>
          (case probability counts of
             Inl e \<Rightarrow> (Inl e, s')
           | Inr p \<Rightarrow> await_jobs B jobs (ys_simulated @ [p]) s'))"

text \<open>\<^verbatim>\<open>simulate_polynomial(circuit_function, xs, num_shots)\<close> on the backend \<open>B\<close>.\<close>

definition simulate_polynomial ::
  "('c, 'j, 's) backend \<Rightarrow> ('x \<Rightarrow> error + 'c) \<Rightarrow> 'x list \<Rightarrow> nat \<Rightarrow> 's \<Rightarrow>
   (error + real list) \<times> 's" where
  "simulate_polynomial B circuit_function xs num_shots s =
     (let ys_simulated = []
      in case submit_jobs B circuit_function num_shots xs [] s of
           (Inl e, s1) \<Rightarrow> (Inl e, s1)
         | (Inr jobs, s1) \<Rightarrow> await_jobs B jobs ys_simulated s1)"

text \<open>
  \<^verbatim>\<open>experiment_circuit(x)\<close> of the notebook: \<^verbatim>\<open>qsp_circuit(x, phases)\<close> for the phases
  of the notebook's global, here a parameter, followed by \<^verbatim>\<open>measure_all\<close> and
  \<^verbatim>\<open>transpile\<close>. The measurement is what the backend does with every circuit it runs, and
  transpiling keeps the unitary, so the circuit handed to the backend is the one of
  \<^verbatim>\<open>qsp_circuit\<close>.
\<close>

definition experiment_circuit :: "real list \<Rightarrow> real \<Rightarrow> error + circuit" where
  "experiment_circuit phases x = qsp_circuit x phases"

text \<open>
  The specification's \<open>estimateProbability(circuit, x, shots)\<close> is one evaluation of
  \<^verbatim>\<open>simulate_polynomial\<close>: the first element of the list it returns for the single input
  \<open>x\<close> (\<^verbatim>\<open>simulate_polynomial(circuit_function, [x], shots)[0]\<close>).
\<close>

definition estimateProbability ::
  "('c, 'j, 's) backend \<Rightarrow> ('x \<Rightarrow> error + 'c) \<Rightarrow> 'x \<Rightarrow> nat \<Rightarrow> 's \<Rightarrow> error + real" where
  "estimateProbability B circuit_function x shots s =
     (case fst (simulate_polynomial B circuit_function [x] shots s) of
        Inl e \<Rightarrow> Inl e
      | Inr [] \<Rightarrow> Inl IndexError
      | Inr (y # ys) \<Rightarrow> Inr y)"

section \<open>Observing a backend\<close>

text \<open>
  The calls a backend receives, each with the answer it gave. \<open>logged B\<close> is the backend
  \<open>B\<close> that in addition keeps the list of its calls in its state; the list is written by
  the backend and not by its caller.
\<close>

datatype ('c, 'j) event = Run 'c nat "error + 'j" | Result 'j "error + counts"

definition logged ::
  "('c, 'j, 's) backend \<Rightarrow> ('c, 'j, 's \<times> ('c, 'j) event list) backend" where
  "logged B =
     \<lparr>run = (\<lambda>c n (s, tr). case run B c n s of (r, s') \<Rightarrow> (r, (s', tr @ [Run c n r]))),
      result = (\<lambda>job (s, tr). case result B job s of (r, s') \<Rightarrow> (r, (s', tr @ [Result job r])))\<rparr>"


text \<open>
  A backend for running the model on concrete inputs: the job of a circuit is the circuit
  itself, every fetch is answered with the same counts, and the state counts the calls.
\<close>

definition fixed_backend :: "counts \<Rightarrow> ('c, 'c, nat) backend" where
  "fixed_backend cnt =
     \<lparr>run = (\<lambda>c n s. (Inr c, Suc s)), result = (\<lambda>job s. (Inr cnt, Suc s))\<rparr>"

text \<open>
  The counts of one job: submit the circuit with \<open>n\<close> shots in the state \<open>s\<close> and fetch
  the result; and the relative frequency of the outcome \<^verbatim>\<open>'0'\<close> in them.
\<close>

definition job_counts :: "('c, 'j, 's) backend \<Rightarrow> 'c \<Rightarrow> nat \<Rightarrow> 's \<Rightarrow> error + counts" where
  "job_counts B c n s =
     (case run B c n s of
        (Inl e, s1) \<Rightarrow> Inl e
      | (Inr job, s1) \<Rightarrow> fst (result B job s1))"

definition frequency_zero :: "('c, 'j, 's) backend \<Rightarrow> 'c \<Rightarrow> nat \<Rightarrow> 's \<Rightarrow> real" where
  "frequency_zero B c n s =
     (case job_counts B c n s of
        Inl e \<Rightarrow> 0
      | Inr cnt \<Rightarrow> real (counts_get cnt ''0'' 0) / real n)"

text \<open>
  Modelled from the spec: a backend that samples the circuit \<open>c\<close> ideally. Every job with
  \<open>n > 0\<close> shots returns counts of \<open>n\<close> outcomes, and the relative frequency of the
  outcome \<open>0\<close> tends to the probability of that outcome as the number of shots grows (for
  independent measurements this is what the law of large numbers gives; the randomness
  itself is not modelled).
\<close>

definition ideal_sampler :: "(circuit, 'j, 's) backend \<Rightarrow> 's \<Rightarrow> circuit \<Rightarrow> bool" where
  "ideal_sampler B s c \<longleftrightarrow>
     (\<forall>n>0. \<exists>cnt. job_counts B c n s = Inr cnt \<and> counts_shots cnt = n) \<and>
     (\<lambda>n. frequency_zero B c n s) \<longlonglongrightarrow> probability_zero c"

text \<open>
  A backend that returns the expected counts: of \<open>n\<close> shots, \<open>\<lfloor>n p\<rfloor>\<close> give the outcome
  \<open>0\<close>, where \<open>p\<close> is the probability of that outcome. Its job is the circuit with the
  number of shots.
\<close>

definition expected_backend :: "(circuit, circuit \<times> nat, unit) backend" where
  "expected_backend =
     \<lparr>run = (\<lambda>c n s. (Inr (c, n), s)),
      result = (\<lambda>(c, n) s.
        (Inr [(''0'', nat \<lfloor>real n * probability_zero c\<rfloor>),
              (''1'', n - nat \<lfloor>real n * probability_zero c\<rfloor>)], s))\<rparr>"

text \<open>
  The invariant of the product: the top row of \<open>U\<close> is \<open>(P(x), i Q(x) \<surd>(1 - x\<^sup>2))\<close> for the
  two coefficient lists \<open>pq\<close>.
\<close>

definition top_row :: "complex \<Rightarrow> complex list \<times> complex list \<Rightarrow> mat2 \<Rightarrow> bool" where
  "top_row x pq U \<longleftrightarrow> m00 U = poly_eval (fst pq) x \<and> m01 U = \<i> * poly_eval (snd pq) x * csqrt (1 - x\<^sup>2)"

text \<open>
  The two coefficient lists of the whole product for a phase sequence, started at
  \<open>S(\<phi>\<^sub>0)\<close>, whose top row is \<open>(e\<^sup>i\<^sup>\<phi>\<^sup>0, 0)\<close>.
\<close>

definition qsp_coeffs :: "real list \<Rightarrow> complex list \<times> complex list" where
  "qsp_coeffs phases = pq_coeffs ([cis (hd phases)], []) (tl phases)"

text \<open>
  The shape \<open>(a, b; -b\<^sup>*, a\<^sup>*)\<close> with \<open>|a|\<^sup>2 + |b|\<^sup>2 = 1\<close>, which the factors have for real
  arguments and which products keep.
\<close>

definition su2 :: "mat2 \<Rightarrow> bool" where
  "su2 U \<longleftrightarrow> m11 U = cnj (m00 U) \<and> m10 U = - cnj (m01 U) \<and>
     m00 U * cnj (m00 U) + m01 U * cnj (m01 U) = 1"

section \<open>Concrete runs\<close>

text \<open>
  The model on small inputs: the circuit builder outside and inside the domain of
  \<^verbatim>\<open>math.acos\<close>.
\<close>

lemma qsp_circuit_out_of_domain: "qsp_circuit 2 [1 / 10, 2 / 10] = Inl ValueError"
  by (simp add: qsp_circuit_def WGate_def)

lemma qsp_circuit_example:
  "qsp_circuit 1 [1 / 10, 2 / 10] = Inr [RZ (- 2 / 5), RX 0, RZ (- 1 / 5)]"
  by (simp add: qsp_circuit_def WGate_def SGate_def)

section \<open>The matrix product and its polynomial\<close>

lemma expected_s_spec: "expected_s phi = spec_S phi"
  by (simp add: expected_s_def spec_S_def cis_conv_exp)

lemma expected_w_spec: "expected_w x = spec_W x"
  by (simp add: expected_w_def spec_W_def)

lemma qsp_loop_prod:
  "qsp_loop x poly phis = poly * prod_list (map (\<lambda>phi. spec_W x * spec_S phi) phis)"
  by (induction phis arbitrary: poly) (simp_all add: expected_s_spec expected_w_spec mult.assoc)

lemma qsp_polynomial_spec:
  "phases \<noteq> [] \<Longrightarrow> qsp_polynomial x phases =
     Inr (spec_unitary x phases, m00 (spec_unitary x phases), m01 (spec_unitary x phases))"
  by (cases phases) (simp_all add: spec_unitary_def qsp_loop_prod expected_s_spec Let_def)

lemma poly_eval_add: "poly_eval (poly_add as bs) x = poly_eval as x + poly_eval bs x"
  by (induction as bs rule: poly_add.induct) (simp_all add: algebra_simps)

lemma length_poly_add: "length (poly_add as bs) = max (length as) (length bs)"
  by (induction as bs rule: poly_add.induct) simp_all

lemma poly_eval_scale: "poly_eval (map ((*) k) cs) x = k * poly_eval cs x"
  by (induction cs) (simp_all add: algebra_simps)

lemma poly_eval_uminus: "poly_eval (map uminus cs) x = - poly_eval cs x"
  by (induction cs) (simp_all add: algebra_simps)

lemma top_row_step:
  assumes "top_row x pq U"
  shows "top_row x (pq_step phi pq) (U * spec_W x * spec_S phi)"
proof -
  define s where "s = csqrt (1 - x\<^sup>2)"
  define P where "P = poly_eval (fst pq) x"
  define Q where "Q = poly_eval (snd pq) x"
  have s2: "s * s = 1 - x * x"
    using power2_csqrt [of "1 - x\<^sup>2"] by (simp add: s_def power2_eq_square)
  have U: "m00 U = P" "m01 U = \<i> * Q * s"
    using assms by (simp_all add: top_row_def P_def Q_def s_def)
  have h: "\<i> * Q * s * (\<i> * s) = - Q + x * (x * Q)"
  proof -
    have "\<i> * Q * s * (\<i> * s) = (\<i> * \<i>) * (Q * (s * s))" by (simp only: mult_ac)
    also have "\<dots> = - (Q * (s * s))" by simp
    also have "\<dots> = - Q + x * (x * Q)" by (simp add: s2 algebra_simps)
    finally show ?thesis .
  qed
  have uw0: "m00 (U * spec_W x) = x * P + (- Q + x * (x * Q))"
  proof -
    have "m00 (U * spec_W x) = P * x + \<i> * Q * s * (\<i> * s)"
      by (simp only: times_mat2_def spec_W_def U s_def [symmetric] mat2.sel)
    also have "\<dots> = P * x + (- Q + x * (x * Q))" by (simp only: h)
    also have "\<dots> = x * P + (- Q + x * (x * Q))" by simp
    finally show ?thesis .
  qed
  have uw1: "m01 (U * spec_W x) = \<i> * (P + x * Q) * s"
    by (simp add: times_mat2_def spec_W_def U s_def [symmetric] algebra_simps)
  have a: "m00 (U * spec_W x * spec_S phi) = cis phi * (x * P + (- Q + x * (x * Q)))"
    by (simp add: times_mat2_def [of "U * spec_W x"] spec_S_def uw0)
  have b: "m01 (U * spec_W x * spec_S phi) = \<i> * (cis (- phi) * (P + x * Q)) * s"
    by (simp add: times_mat2_def [of "U * spec_W x"] spec_S_def uw1)
  show ?thesis
    unfolding top_row_def
    by (simp add: a b pq_step_def poly_eval_add poly_eval_scale poly_eval_uminus
        P_def [symmetric] Q_def [symmetric] s_def [symmetric])
qed

lemma top_row_loop:
  "top_row x pq U \<Longrightarrow>
   top_row x (pq_coeffs pq phis) (U * prod_list (map (\<lambda>phi. spec_W x * spec_S phi) phis))"
proof (induction phis arbitrary: pq U)
  case Nil
  then show ?case by simp
next
  case (Cons phi phis)
  from Cons.IH [OF top_row_step [OF Cons.prems, of phi]]
  show ?case by (simp add: mult.assoc)
qed

lemma length_pq_step:
  assumes "length (fst pq) \<le> Suc k" "length (snd pq) \<le> k"
  shows "length (fst (pq_step phi pq)) \<le> Suc (Suc k) \<and> length (snd (pq_step phi pq)) \<le> Suc k"
  using assms by (simp add: pq_step_def length_poly_add)

lemma length_pq_coeffs:
  "length (fst pq) \<le> Suc k \<Longrightarrow> length (snd pq) \<le> k \<Longrightarrow>
   length (fst (pq_coeffs pq phis)) \<le> Suc (k + length phis) \<and>
   length (snd (pq_coeffs pq phis)) \<le> k + length phis"
proof (induction phis arbitrary: pq k)
  case Nil
  then show ?case by simp
next
  case (Cons phi phis)
  from length_pq_step [OF Cons.prems, of phi]
  have "length (fst (pq_step phi pq)) \<le> Suc (Suc k)" "length (snd (pq_step phi pq)) \<le> Suc k"
    by simp_all
  from Cons.IH [OF this] show ?case by simp
qed

lemma top_row_start: "top_row x ([cis phi0], []) (spec_S phi0)"
  by (simp add: top_row_def spec_S_def)

lemma spec_unitary_top_row:
  "top_row x (pq_coeffs ([cis (hd phases)], []) (tl phases)) (spec_unitary x phases)"
  unfolding spec_unitary_def by (rule top_row_loop [OF top_row_start])

text \<open>
  Claim C1. For every non-empty phase sequence and every \<open>x\<close> (a complex number, which
  covers the reals of \<open>[-1, 1]\<close> and the values of a symbol), \<^verbatim>\<open>qsp_polynomial\<close> returns
  the matrix \<open>S(\<phi>\<^sub>0) \<cdot> \<Prod>\<^sub>i [W(x) \<cdot> S(\<phi>\<^sub>i)]\<close> together with its two top entries, and
  the top-left entry is a polynomial in \<open>x\<close> with at most \<open>len(phases)\<close> coefficients, that
  is of degree at most \<open>len(phases) - 1\<close>.
\<close>

theorem qsp_polynomial_is_spec_product:
  assumes "phases \<noteq> []"
  shows "(\<forall>x. qsp_polynomial x phases =
            Inr (spec_unitary x phases, m00 (spec_unitary x phases), m01 (spec_unitary x phases)))
       \<and> (\<exists>cs. length cs \<le> length phases \<and>
            (\<forall>x. \<exists>U q. qsp_polynomial x phases = Inr (U, poly_eval cs x, q)))"
proof
  show spec: "\<forall>x. qsp_polynomial x phases =
            Inr (spec_unitary x phases, m00 (spec_unitary x phases), m01 (spec_unitary x phases))"
    using assms by (simp add: qsp_polynomial_spec)
  let ?pq = "pq_coeffs ([cis (hd phases)], []) (tl phases)"
  have "length (fst ?pq) \<le> Suc (0 + length (tl phases))"
    using length_pq_coeffs [of "([cis (hd phases)], [])" 0 "tl phases"] by simp
  then have len: "length (fst ?pq) \<le> length phases"
    using assms by (cases phases) simp_all
  have "\<forall>x. m00 (spec_unitary x phases) = poly_eval (fst ?pq) x"
    using spec_unitary_top_row [of _ phases] by (simp add: top_row_def)
  with spec have "\<forall>x. \<exists>U q. qsp_polynomial x phases = Inr (U, poly_eval (fst ?pq) x, q)"
    by simp
  with len show "\<exists>cs. length cs \<le> length phases \<and>
            (\<forall>x. \<exists>U q. qsp_polynomial x phases = Inr (U, poly_eval cs x, q))"
    by blast
qed

theorem qsp_polynomial_is_spec_product_witness:
  "[1 / 10, 2 / 10, 3 / 10, 4 / 10] \<noteq> ([]::real list) \<and>
   (\<forall>x. qsp_polynomial x [1 / 10, 2 / 10, 3 / 10, 4 / 10] =
            Inr (spec_unitary x [1 / 10, 2 / 10, 3 / 10, 4 / 10],
                 m00 (spec_unitary x [1 / 10, 2 / 10, 3 / 10, 4 / 10]),
                 m01 (spec_unitary x [1 / 10, 2 / 10, 3 / 10, 4 / 10])))
       \<and> (\<exists>cs. length cs \<le> length [1 / 10, 2 / 10, 3 / 10, 4 / 10 :: real] \<and>
            (\<forall>x. \<exists>U q. qsp_polynomial x [1 / 10, 2 / 10, 3 / 10, 4 / 10] =
                     Inr (U, poly_eval cs x, q)))"
proof -
  have ne: "[1 / 10, 2 / 10, 3 / 10, 4 / 10] \<noteq> ([]::real list)" by simp
  show ?thesis by (rule conjI [OF ne qsp_polynomial_is_spec_product [OF ne]])
qed

section \<open>Small phase sequences\<close>

text \<open>
  Claim C5. On the empty phase sequence both builders fail at once and return neither a
  matrix nor a circuit: \<^verbatim>\<open>qsp_polynomial\<close> by its assertion and \<^verbatim>\<open>qsp_circuit\<close> by
  indexing the empty reversed list, for every \<open>x\<close>. Neither function takes the backend,
  so no job is submitted.
\<close>

theorem empty_phases_rejected:
  "qsp_polynomial x [] = Inl AssertionError \<and> qsp_circuit y [] = Inl IndexError"
  by (simp add: qsp_circuit_def)

text \<open>
  Claim C9. For a phase sequence of length one \<^verbatim>\<open>qsp_polynomial\<close> returns \<open>S(\<phi>\<^sub>0)\<close>,
  with the top-left entry \<open>e\<^sup>i\<^sup>\<phi>\<^sup>0\<close> and no dependence on \<open>x\<close>, and \<^verbatim>\<open>qsp_circuit\<close>
  returns the circuit of the single gate \<^verbatim>\<open>SGate(phi0)\<close>, one \<open>R\<^sub>z\<close> rotation and no
  \<open>R\<^sub>x\<close> rotation.
\<close>

theorem single_phase_is_S:
  "qsp_polynomial x [phi0] = Inr (expected_s phi0, exp (\<i> * complex_of_real phi0), 0)
   \<and> qsp_circuit y [phi0] = Inr (SGate phi0)
   \<and> SGate phi0 = [RZ (- 2 * phi0)]"
  by (simp add: qsp_circuit_def expected_s_def SGate_def)

lemma spec_S_mult: "spec_S a * spec_S b = spec_S (a + b)"
  by (simp add: spec_S_def times_mat2_def cis_mult)

lemma spec_W_0: "spec_W 0 = Mat2 0 \<i> \<i> 0"
  by (simp add: spec_W_def)

lemma diag_step_0:
  "Mat2 a 0 0 d * spec_W 0 * spec_S phi = Mat2 0 (\<i> * (a * cis (- phi))) (\<i> * (d * cis phi)) 0"
  by (simp add: spec_W_0 spec_S_def times_mat2_def)

lemma anti_step_0:
  "Mat2 0 b c 0 * spec_W 0 * spec_S phi = Mat2 (\<i> * (b * cis phi)) 0 0 (\<i> * (c * cis (- phi)))"
  by (simp add: spec_W_0 spec_S_def times_mat2_def)

text \<open>
  Claim C8. For the phases \<open>[0.1, 0.2, 0.3, 0.4]\<close> and \<open>x = 0\<close> the result of
  \<^verbatim>\<open>qsp_polynomial\<close> is one fixed matrix, and its top-left entry is the number \<open>0\<close>.
\<close>

theorem fixture_value_at_zero:
  "qsp_polynomial 0 [1 / 10, 2 / 10, 3 / 10, 4 / 10] =
     Inr (Mat2 0 (- \<i> * cis (- 1 / 5)) (- \<i> * cis (1 / 5)) 0, 0, - \<i> * cis (- 1 / 5))"
proof -
  have 1: "spec_S (1 / 10) * spec_W 0 * spec_S (2 / 10)
           = Mat2 0 (\<i> * cis (- 1 / 10)) (\<i> * cis (1 / 10)) 0"
    by (simp add: spec_S_def [of "1 / 10"] diag_step_0 cis_mult)
  have 2: "Mat2 0 (\<i> * cis (- 1 / 10)) (\<i> * cis (1 / 10)) 0 * spec_W 0 * spec_S (3 / 10)
           = Mat2 (- cis (1 / 5)) 0 0 (- cis (- 1 / 5))"
    by (simp add: anti_step_0 cis_mult mult.assoc [where 'a = complex])
  have 3: "Mat2 (- cis (1 / 5)) 0 0 (- cis (- 1 / 5)) * spec_W 0 * spec_S (4 / 10)
           = Mat2 0 (- \<i> * cis (- 1 / 5)) (- \<i> * cis (1 / 5)) 0"
    by (simp add: diag_step_0 cis_mult mult.assoc [where 'a = complex])
  have "qsp_loop 0 (expected_s (1 / 10)) [2 / 10, 3 / 10, 4 / 10]
        = Mat2 0 (- \<i> * cis (- 1 / 5)) (- \<i> * cis (1 / 5)) 0"
    by (simp only: qsp_loop.simps expected_s_spec expected_w_spec 1 2 3)
  then show ?thesis by (simp only: qsp_polynomial.simps Let_def mat2.sel)
qed

section \<open>The boundary of the domain\<close>

lemma spec_W_1: "spec_W 1 = 1"
  by (simp add: spec_W_def one_mat2_def)

lemma spec_W_m1: "spec_W (- 1) = Mat2 (- 1) 0 0 (- 1)"
  by (simp add: spec_W_def)

lemma prod_at_1:
  "prod_list (map (\<lambda>phi. spec_W 1 * spec_S phi) phis) = spec_S (sum_list phis)"
  by (induction phis) (simp_all add: spec_W_1 spec_S_mult, simp add: spec_S_def one_mat2_def)

lemma prod_at_m1:
  "prod_list (map (\<lambda>phi. spec_W (- 1) * spec_S phi) phis) =
     Mat2 ((- 1) ^ length phis * cis (sum_list phis)) 0 0
          ((- 1) ^ length phis * cis (- sum_list phis))"
proof (induction phis)
  case Nil
  show ?case by (simp add: one_mat2_def)
next
  case (Cons phi phis)
  then show ?case
    by (simp add: spec_W_m1 spec_S_def times_mat2_def cis_mult)
qed

lemma spec_unitary_at_1:
  "phases \<noteq> [] \<Longrightarrow> spec_unitary 1 phases = spec_S (sum_list phases)"
  by (cases phases) (simp_all add: spec_unitary_def prod_at_1 spec_S_mult)

lemma spec_unitary_at_m1:
  assumes "phases \<noteq> []"
  shows "spec_unitary (- 1) phases =
     Mat2 ((- 1) ^ (length phases - 1) * cis (sum_list phases)) 0 0
          ((- 1) ^ (length phases - 1) * cis (- sum_list phases))"
proof (cases phases)
  case Nil
  with assms show ?thesis by simp
next
  case (Cons phi0 phis)
  have "spec_unitary (- 1) (phi0 # phis) =
          spec_S phi0 * Mat2 ((- 1) ^ length phis * cis (sum_list phis)) 0 0
                             ((- 1) ^ length phis * cis (- sum_list phis))"
    by (simp add: spec_unitary_def prod_at_m1)
  then show ?thesis
    by (simp add: Cons spec_S_def times_mat2_def cis_mult)
qed

text \<open>
  Claim C7, as amended. For every non-empty phase sequence \<^verbatim>\<open>qsp_polynomial\<close> returns
  a result at \<open>x = 1\<close> and at \<open>x = -1\<close>; there the square-root term is \<open>0\<close>, so \<open>W(\<plusminus>1)\<close>
  is \<open>\<plusminus>\<close> the identity, and the top-left entry is \<open>e\<^sup>i\<^sup>\<Sigma>\<close> at \<open>x = 1\<close> and
  \<open>(-1)\<^sup>d e\<^sup>i\<^sup>\<Sigma>\<close> at \<open>x = -1\<close>, where \<open>\<Sigma>\<close> is the sum of the phases and \<open>d + 1\<close> their
  number: a complex number of modulus one.
\<close>

theorem boundary_values:
  assumes "phases \<noteq> []"
  shows "qsp_polynomial 1 phases =
           Inr (Mat2 (cis (sum_list phases)) 0 0 (cis (- sum_list phases)),
                cis (sum_list phases), 0)
       \<and> qsp_polynomial (- 1) phases =
           Inr (Mat2 ((- 1) ^ (length phases - 1) * cis (sum_list phases)) 0 0
                     ((- 1) ^ (length phases - 1) * cis (- sum_list phases)),
                (- 1) ^ (length phases - 1) * cis (sum_list phases), 0)
       \<and> expected_w 1 = Mat2 1 0 0 1 \<and> expected_w (- 1) = Mat2 (- 1) 0 0 (- 1)
       \<and> cmod (cis (sum_list phases)) = 1"
  using assms
  by (simp add: qsp_polynomial_spec spec_unitary_at_1 spec_unitary_at_m1 spec_S_def
      expected_w_def)

theorem boundary_values_witness:
  "[1 / 10, 2 / 10, 3 / 10, 4 / 10] \<noteq> ([]::real list) \<and>
   qsp_polynomial 1 [1 / 10, 2 / 10, 3 / 10, 4 / 10] =
     Inr (Mat2 (cis 1) 0 0 (cis (- 1)), cis 1, 0) \<and>
   qsp_polynomial (- 1) [1 / 10, 2 / 10, 3 / 10, 4 / 10] =
     Inr (Mat2 (- cis 1) 0 0 (- cis (- 1)), - cis 1, 0)"
proof -
  have ne: "[1 / 10, 2 / 10, 3 / 10, 4 / 10] \<noteq> ([]::real list)" by simp
  have sum: "sum_list [1 / 10, 2 / 10, 3 / 10, 4 / 10 :: real] = 1" by simp
  have len: "length [1 / 10, 2 / 10, 3 / 10, 4 / 10 :: real] - 1 = 3" by simp
  have odd: "(- 1 :: complex) ^ 3 = - 1" by simp
  from boundary_values [OF ne] ne show ?thesis
    unfolding sum len odd by (simp del: qsp_polynomial.simps)
qed

text \<open>
  Claim C7 as stated asks for a real top-left entry at the boundary. For the phases
  \<open>[0.1, 0.2, 0.3, 0.4]\<close> and \<open>x = 1\<close> the entry is \<open>e\<^sup>i\<close>, whose imaginary part
  \<open>sin 1\<close> is not zero.
\<close>

theorem boundary_value_not_real:
  "qsp_polynomial 1 [1 / 10, 2 / 10, 3 / 10, 4 / 10] =
     Inr (Mat2 (cis 1) 0 0 (cis (- 1)), cis 1, 0) \<and> Im (cis 1) \<noteq> 0"
proof -
  have "0 < sin (1::real)" by (rule sin_gt_zero_02) simp_all
  then have "Im (cis 1) \<noteq> 0" by simp
  moreover have "qsp_polynomial 1 [1 / 10, 2 / 10, 3 / 10, 4 / 10] =
     Inr (Mat2 (cis 1) 0 0 (cis (- 1)), cis 1, 0)"
  proof -
    have sum: "sum_list [1 / 10, 2 / 10, 3 / 10, 4 / 10 :: real] = 1" by simp
    have "spec_unitary 1 [1 / 10, 2 / 10, 3 / 10, 4 / 10] = Mat2 (cis 1) 0 0 (cis (- 1))"
      using spec_unitary_at_1 [of "[1 / 10, 2 / 10, 3 / 10, 4 / 10]"]
      unfolding sum by (simp add: spec_S_def)
    then show ?thesis
      using qsp_polynomial_spec [of "[1 / 10, 2 / 10, 3 / 10, 4 / 10]" 1]
      by (simp del: qsp_polynomial.simps)
  qed
  ultimately show ?thesis by simp
qed

section \<open>The circuit implements the product\<close>

lemma csqrt_real_unit:
  assumes "- 1 \<le> x" "x \<le> 1"
  shows "csqrt (1 - (complex_of_real x)\<^sup>2) = complex_of_real (sqrt (1 - x\<^sup>2))"
proof -
  have "0 \<le> 1 - x\<^sup>2" using assms by (simp add: square_le_1)
  then have "csqrt (complex_of_real (1 - x\<^sup>2)) = complex_of_real (sqrt (1 - x\<^sup>2))"
    by (rule csqrt_of_real)
  then show ?thesis by simp
qed

lemma gate_matrix_S: "gate_matrix (RZ (- (2 * phi))) = spec_S phi"
  by (simp add: spec_S_def)

lemma gate_matrix_W:
  assumes "- 1 \<le> x" "x \<le> 1"
  shows "gate_matrix (RX (- (2 * arccos x))) = spec_W (complex_of_real x)"
  using assms by (simp add: spec_W_def csqrt_real_unit sin_arccos)

lemma foldl_gate: "foldl (\<lambda>U g. gate_matrix g * U) A circ = Operator circ * A"
proof (induction circ arbitrary: A)
  case Nil
  show ?case by (simp add: Operator_def)
next
  case (Cons g circ)
  have "foldl (\<lambda>U g. gate_matrix g * U) A (g # circ) = Operator circ * (gate_matrix g * A)"
    by (simp add: Cons.IH)
  moreover have "Operator (g # circ) = Operator circ * gate_matrix g"
    by (simp add: Operator_def Cons.IH [of "gate_matrix g"])
  ultimately show ?case by (simp add: mult.assoc)
qed

lemma Operator_append: "Operator (c1 @ c2) = Operator c2 * Operator c1"
proof -
  have "Operator (c1 @ c2) =
          foldl (\<lambda>U g. gate_matrix g * U) (foldl (\<lambda>U g. gate_matrix g * U) 1 c1) c2"
    by (simp add: Operator_def)
  also have "\<dots> = Operator c2 * foldl (\<lambda>U g. gate_matrix g * U) 1 c1"
    by (rule foldl_gate)
  finally show ?thesis by (simp only: Operator_def)
qed

lemma Operator_single: "Operator [g] = gate_matrix g"
  by (simp add: Operator_def)

lemma circuit_loop_Operator:
  assumes "- 1 \<le> x" "x \<le> 1"
  shows "\<exists>circ'. circuit_loop x circ phis = Inr circ' \<and>
           Operator circ' =
             prod_list (map (\<lambda>phi. spec_S phi * spec_W (complex_of_real x)) (rev phis)) * Operator circ"
proof (induction phis arbitrary: circ)
  case Nil
  show ?case by simp
next
  case (Cons phi phis)
  have w: "WGate x = Inr [RX (- 2 * arccos x)]"
    using assms by (simp add: WGate_def)
  have "Operator (circ @ [RX (- 2 * arccos x)] @ SGate phi) =
          Operator [RZ (- (2 * phi))] * (Operator [RX (- (2 * arccos x))] * Operator circ)"
    by (simp add: Operator_append SGate_def mult.assoc del: append.simps)
  then have op: "Operator (circ @ [RX (- 2 * arccos x)] @ SGate phi) =
          spec_S phi * spec_W (complex_of_real x) * Operator circ"
    using assms
    by (simp add: Operator_single gate_matrix_S gate_matrix_W
        mult.assoc del: gate_matrix.simps append.simps)
  from Cons.IH [of "circ @ [RX (- 2 * arccos x)] @ SGate phi"]
  obtain circ' where
    l: "circuit_loop x (circ @ [RX (- 2 * arccos x)] @ SGate phi) phis = Inr circ'" and
    o: "Operator circ' =
          prod_list (map (\<lambda>phi. spec_S phi * spec_W (complex_of_real x)) (rev phis)) *
          Operator (circ @ [RX (- 2 * arccos x)] @ SGate phi)"
    by blast
  have "circuit_loop x circ (phi # phis) = Inr circ'"
    by (simp only: circuit_loop.simps w sum.case l)
  moreover have "Operator circ' =
      prod_list (map (\<lambda>phi. spec_S phi * spec_W (complex_of_real x)) (rev (phi # phis))) *
      Operator circ"
    unfolding o op by (simp add: mult.assoc)
  ultimately show ?case by blast
qed

lemma product_shift:
  "prod_list (map (\<lambda>phi. spec_S phi * W) init) * spec_S y =
     spec_S (hd (init @ [y])) * prod_list (map (\<lambda>phi. W * spec_S phi) (tl (init @ [y])))"
proof (induction init)
  case Nil
  show ?case by simp
next
  case (Cons a init)
  have "init @ [y] = hd (init @ [y]) # tl (init @ [y])" by simp
  then have "prod_list (map (\<lambda>phi. W * spec_S phi) (init @ [y])) =
      W * spec_S (hd (init @ [y])) * prod_list (map (\<lambda>phi. W * spec_S phi) (tl (init @ [y])))"
    by (metis list.simps(9) prod_list.Cons)
  with Cons.IH show ?case by (simp add: mult.assoc)
qed

lemma qsp_circuit_Operator:
  assumes "- 1 \<le> x" "x \<le> 1" "phases \<noteq> []"
  shows "\<exists>circ. qsp_circuit x phases = Inr circ \<and>
           Operator circ = spec_unitary (complex_of_real x) phases"
proof -
  from assms(3) obtain phi rest where r: "rev phases = phi # rest"
    by (cases "rev phases") simp_all
  then have p: "phases = rev rest @ [phi]" by (metis rev.simps(2) rev_rev_ident)
  from circuit_loop_Operator [OF assms(1,2), of "SGate phi" rest]
  obtain circ where c: "circuit_loop x (SGate phi) rest = Inr circ"
    and o: "Operator circ =
       prod_list (map (\<lambda>phi. spec_S phi * spec_W (complex_of_real x)) (rev rest)) * Operator (SGate phi)"
    by blast
  have "Operator (SGate phi) = spec_S phi"
    by (simp add: SGate_def Operator_single gate_matrix_S del: gate_matrix.simps)
  with o have "Operator circ = spec_unitary (complex_of_real x) phases"
    by (simp add: product_shift p spec_unitary_def)
  moreover have "qsp_circuit x phases = Inr circ"
    by (simp add: qsp_circuit_def r c)
  ultimately show ?thesis by blast
qed

lemma circuit_loop_shape:
  assumes "- 1 \<le> x" "x \<le> 1"
  shows "circuit_loop x circ phis =
           Inr (circ @ concat (map (\<lambda>phi. [RX (- 2 * arccos x), RZ (- 2 * phi)]) phis))"
  using assms by (induction phis arbitrary: circ) (simp_all add: WGate_def SGate_def)

lemma qsp_circuit_shape:
  assumes "- 1 \<le> x" "x \<le> 1" "phases \<noteq> []"
  shows "qsp_circuit x phases =
           Inr (RZ (- 2 * last phases) #
                concat (map (\<lambda>phi. [RX (- 2 * arccos x), RZ (- 2 * phi)]) (rev (butlast phases))))"
proof -
  have r: "rev phases = last phases # rev (butlast phases)"
    using assms(3) by (metis append_butlast_last_id rev.simps(2) rev_rev_ident rev_swap)
  show ?thesis
    unfolding qsp_circuit_def Let_def r
    by (simp add: circuit_loop_shape [OF assms(1,2)] SGate_def)
qed

text \<open>
  Claim C2. For every non-empty phase sequence and every \<open>x\<close> in \<open>[-1, 1]\<close>,
  \<^verbatim>\<open>qsp_circuit\<close> returns the circuit that applies \<open>R\<^sub>z(-2\<phi>\<^sub>d)\<close> first and then, for the
  remaining phases from the last to the first, \<open>R\<^sub>x(-2 arccos x)\<close> followed by
  \<open>R\<^sub>z(-2\<phi>)\<close>; its unitary is equal to the matrix returned by \<^verbatim>\<open>qsp_polynomial\<close>
  for the same phases and \<open>x\<close>, hence within \<open>10\<^sup>-\<^sup>9\<close> of it in every entry.
\<close>

theorem circuit_matches_polynomial:
  assumes "- 1 \<le> x" "x \<le> 1" "phases \<noteq> []"
  shows "\<exists>circ U p q. qsp_circuit x phases = Inr circ \<and>
           circ = RZ (- 2 * last phases) #
                  concat (map (\<lambda>phi. [RX (- 2 * arccos x), RZ (- 2 * phi)])
                            (rev (butlast phases))) \<and>
           qsp_polynomial (complex_of_real x) phases = Inr (U, p, q) \<and>
           Operator circ = U \<and> close_within (1 / 10 ^ 9) (Operator circ) U"
proof -
  from qsp_circuit_Operator [OF assms] obtain circ where
    c: "qsp_circuit x phases = Inr circ"
    and o: "Operator circ = spec_unitary (complex_of_real x) phases"
    by blast
  from c have shape: "circ = RZ (- 2 * last phases) #
      concat (map (\<lambda>phi. [RX (- 2 * arccos x), RZ (- 2 * phi)]) (rev (butlast phases)))"
    by (simp only: qsp_circuit_shape [OF assms] sum.inject)
  have cl: "close_within (1 / 10 ^ 9) (Operator circ) (Operator circ)"
    by (simp add: close_within_def)
  have p: "qsp_polynomial (complex_of_real x) phases =
             Inr (Operator circ, m00 (Operator circ), m01 (Operator circ))"
    unfolding o by (rule qsp_polynomial_spec [OF assms(3)])
  show ?thesis
    by (rule exI [of _ circ], rule exI [of _ "Operator circ"],
        rule exI [of _ "m00 (Operator circ)"], rule exI [of _ "m01 (Operator circ)"])
       (intro conjI c shape p refl cl)
qed

theorem circuit_matches_polynomial_witness:
  "- 1 \<le> (1 / 2 :: real) \<and> (1 / 2 :: real) \<le> 1 \<and>
   [1 / 10, 2 / 10, 3 / 10, 4 / 10] \<noteq> ([]::real list) \<and>
   (\<exists>circ U p q. qsp_circuit (1 / 2) [1 / 10, 2 / 10, 3 / 10, 4 / 10] = Inr circ \<and>
           circ = RZ (- 2 * last [1 / 10, 2 / 10, 3 / 10, 4 / 10]) #
                  concat (map (\<lambda>phi. [RX (- 2 * arccos (1 / 2)), RZ (- 2 * phi)])
                            (rev (butlast [1 / 10, 2 / 10, 3 / 10, 4 / 10]))) \<and>
           qsp_polynomial (complex_of_real (1 / 2)) [1 / 10, 2 / 10, 3 / 10, 4 / 10] =
             Inr (U, p, q) \<and>
           Operator circ = U \<and> close_within (1 / 10 ^ 9) (Operator circ) U)"
proof -
  have a: "- 1 \<le> (1 / 2 :: real)" by simp
  have b: "(1 / 2 :: real) \<le> 1" by simp
  have ne: "[1 / 10, 2 / 10, 3 / 10, 4 / 10] \<noteq> ([]::real list)" by simp
  show ?thesis
    by (rule conjI [OF a conjI [OF b conjI [OF ne circuit_matches_polynomial [OF a b ne]]]])
qed

lemma su2_mult:
  assumes "su2 A" "su2 B"
  shows "su2 (A * B)"
proof -
  define a b c d where "a = m00 A" and "b = m01 A" and "c = m00 B" and "d = m01 B"
  have A: "m10 A = - cnj b" "m11 A = cnj a" and nA: "a * cnj a + b * cnj b = 1"
    using assms(1) by (simp_all add: su2_def a_def b_def)
  have B: "m10 B = - cnj d" "m11 B = cnj c" and nB: "c * cnj c + d * cnj d = 1"
    using assms(2) by (simp_all add: su2_def c_def d_def)
  have e: "m00 (A * B) = a * c - b * cnj d" "m01 (A * B) = a * d + b * cnj c"
    "m10 (A * B) = - cnj b * c - cnj a * cnj d" "m11 (A * B) = - cnj b * d + cnj a * cnj c"
    by (simp_all add: times_mat2_def A B a_def [symmetric] b_def [symmetric]
        c_def [symmetric] d_def [symmetric])
  have "(a * c - b * cnj d) * cnj (a * c - b * cnj d) + (a * d + b * cnj c) * cnj (a * d + b * cnj c)
        = (a * cnj a + b * cnj b) * (c * cnj c + d * cnj d)"
    by (simp add: algebra_simps)
  then have n: "(a * c - b * cnj d) * cnj (a * c - b * cnj d)
      + (a * d + b * cnj c) * cnj (a * d + b * cnj c) = 1"
    by (simp only: nA nB mult_1)
  show ?thesis
    unfolding su2_def e using n by (simp add: algebra_simps)
qed

lemma su2_S: "su2 (spec_S phi)"
  by (simp add: su2_def spec_S_def cis_cnj cis_mult)

lemma su2_W:
  assumes "- 1 \<le> x" "x \<le> 1"
  shows "su2 (spec_W (complex_of_real x))"
proof -
  have "0 \<le> 1 - x\<^sup>2" using assms by (simp add: square_le_1)
  then have "sqrt (1 - x\<^sup>2) * sqrt (1 - x\<^sup>2) = 1 - x * x"
    by (simp add: power2_eq_square)
  then have "complex_of_real x * complex_of_real x
      + complex_of_real (sqrt (1 - x\<^sup>2)) * complex_of_real (sqrt (1 - x\<^sup>2)) = 1"
    by (simp add: of_real_mult [symmetric] of_real_add [symmetric] del: of_real_mult of_real_add)
  moreover have "\<i> * complex_of_real (sqrt (1 - x\<^sup>2)) * (\<i> * complex_of_real (sqrt (1 - x\<^sup>2)))
      = - (complex_of_real (sqrt (1 - x\<^sup>2)) * complex_of_real (sqrt (1 - x\<^sup>2)))"
  proof -
    have "\<i> * s * (\<i> * s) = - (s * s)" for s :: complex
    proof -
      have "\<i> * s * (\<i> * s) = (\<i> * \<i>) * (s * s)" by (simp only: mult_ac)
      then show ?thesis by simp
    qed
    then show ?thesis .
  qed
  ultimately show ?thesis
    using assms by (simp add: su2_def spec_W_def csqrt_real_unit)
qed

lemma su2_prod:
  assumes "- 1 \<le> x" "x \<le> 1"
  shows "su2 U \<Longrightarrow>
     su2 (U * prod_list (map (\<lambda>phi. spec_W (complex_of_real x) * spec_S phi) phis))"
proof (induction phis arbitrary: U)
  case Nil
  then show ?case by simp
next
  case (Cons phi phis)
  have "su2 (U * spec_W (complex_of_real x) * spec_S phi)"
    by (intro su2_mult Cons.prems su2_W assms su2_S)
  from Cons.IH [OF this] show ?case by (simp add: mult.assoc)
qed

lemma su2_spec_unitary:
  assumes "- 1 \<le> x" "x \<le> 1"
  shows "su2 (spec_unitary (complex_of_real x) phases)"
  unfolding spec_unitary_def by (rule su2_prod [OF assms su2_S])

lemma su2_unitary:
  assumes "su2 U"
  shows "U * adjoint U = 1"
proof -
  have s: "m10 U = - cnj (m01 U)" "m11 U = cnj (m00 U)"
    and n: "m00 U * cnj (m00 U) + m01 U * cnj (m01 U) = 1"
    using assms by (simp_all add: su2_def)
  have "m00 (U * adjoint U) = 1"
    by (simp add: times_mat2_def adjoint_def n)
  moreover have "m01 (U * adjoint U) = 0"
    by (simp add: times_mat2_def adjoint_def s)
  moreover have "m10 (U * adjoint U) = 0"
    by (simp add: times_mat2_def adjoint_def s)
  moreover have "m11 (U * adjoint U) = 1"
    using n by (simp add: times_mat2_def adjoint_def s algebra_simps)
  ultimately show ?thesis
    by (intro mat2.expand) (simp add: one_mat2_def)
qed

text \<open>
  Claim C10. For every non-empty sequence of real phases and every real \<open>x\<close> in
  \<open>[-1, 1]\<close> the matrix \<open>U\<close> returned by \<^verbatim>\<open>qsp_polynomial\<close> is unitary, its bottom row is
  determined by its top row through \<open>U\<^sub>1\<^sub>1 = conj U\<^sub>0\<^sub>0\<close> and \<open>U\<^sub>1\<^sub>0 = - conj U\<^sub>0\<^sub>1\<close>, and it
  has the form \<open>(P, i Q \<surd>(1 - x\<^sup>2); i Q\<^sup>* \<surd>(1 - x\<^sup>2), P\<^sup>*)\<close> for the two polynomials
  \<open>P\<close> and \<open>Q\<close> given by the coefficients of the phase sequence.
\<close>

theorem qsp_polynomial_unitary:
  assumes "- 1 \<le> x" "x \<le> 1" "phases \<noteq> []"
  shows "\<exists>U p q. qsp_polynomial (complex_of_real x) phases = Inr (U, p, q) \<and>
           U * adjoint U = 1 \<and>
           m11 U = cnj (m00 U) \<and> m10 U = - cnj (m01 U) \<and>
           U = Mat2 (poly_eval (fst (qsp_coeffs phases)) (complex_of_real x))
                    (\<i> * poly_eval (snd (qsp_coeffs phases)) (complex_of_real x)
                       * complex_of_real (sqrt (1 - x\<^sup>2)))
                    (\<i> * cnj (poly_eval (snd (qsp_coeffs phases)) (complex_of_real x))
                       * complex_of_real (sqrt (1 - x\<^sup>2)))
                    (cnj (poly_eval (fst (qsp_coeffs phases)) (complex_of_real x)))"
proof -
  let ?U = "spec_unitary (complex_of_real x) phases"
  have su: "su2 ?U" by (rule su2_spec_unitary [OF assms(1,2)])
  have t: "top_row (complex_of_real x) (qsp_coeffs phases) ?U"
    unfolding qsp_coeffs_def by (rule spec_unitary_top_row)
  have 0: "m00 ?U = poly_eval (fst (qsp_coeffs phases)) x"
    and 1: "m01 ?U = \<i> * poly_eval (snd (qsp_coeffs phases)) x * sqrt (1 - x\<^sup>2)"
    using t assms(1,2) by (simp_all add: top_row_def csqrt_real_unit)
  have 2: "m10 ?U = \<i> * cnj (poly_eval (snd (qsp_coeffs phases)) x) * sqrt (1 - x\<^sup>2)"
    using su 1 by (simp add: su2_def)
  have 3: "m11 ?U = cnj (poly_eval (fst (qsp_coeffs phases)) x)"
    using su 0 by (simp add: su2_def)
  have form: "?U = Mat2 (poly_eval (fst (qsp_coeffs phases)) x)
                    (\<i> * poly_eval (snd (qsp_coeffs phases)) x * sqrt (1 - x\<^sup>2))
                    (\<i> * cnj (poly_eval (snd (qsp_coeffs phases)) x) * sqrt (1 - x\<^sup>2))
                    (cnj (poly_eval (fst (qsp_coeffs phases)) x))"
    by (rule mat2.expand) (simp add: 0 1 2 3)
  have "?U * adjoint ?U = 1" by (rule su2_unitary [OF su])
  moreover have "m11 ?U = cnj (m00 ?U)" "m10 ?U = - cnj (m01 ?U)"
    using su by (simp_all add: su2_def)
  moreover have "qsp_polynomial (complex_of_real x) phases = Inr (?U, m00 ?U, m01 ?U)"
    using assms(3) by (rule qsp_polynomial_spec)
  ultimately show ?thesis using form by blast
qed

theorem qsp_polynomial_unitary_witness:
  "- 1 \<le> (1 / 2 :: real) \<and> (1 / 2 :: real) \<le> 1 \<and>
   [1 / 10, 2 / 10, 3 / 10, 4 / 10] \<noteq> ([]::real list) \<and>
   (\<exists>U p q. qsp_polynomial (complex_of_real (1 / 2)) [1 / 10, 2 / 10, 3 / 10, 4 / 10] =
               Inr (U, p, q) \<and>
           U * adjoint U = 1 \<and>
           m11 U = cnj (m00 U) \<and> m10 U = - cnj (m01 U) \<and>
           U = Mat2 (poly_eval (fst (qsp_coeffs [1 / 10, 2 / 10, 3 / 10, 4 / 10]))
                       (complex_of_real (1 / 2)))
                    (\<i> * poly_eval (snd (qsp_coeffs [1 / 10, 2 / 10, 3 / 10, 4 / 10]))
                           (complex_of_real (1 / 2))
                       * complex_of_real (sqrt (1 - (1 / 2)\<^sup>2)))
                    (\<i> * cnj (poly_eval (snd (qsp_coeffs [1 / 10, 2 / 10, 3 / 10, 4 / 10]))
                                (complex_of_real (1 / 2)))
                       * complex_of_real (sqrt (1 - (1 / 2)\<^sup>2)))
                    (cnj (poly_eval (fst (qsp_coeffs [1 / 10, 2 / 10, 3 / 10, 4 / 10]))
                            (complex_of_real (1 / 2)))))"
proof -
  have a: "- 1 \<le> (1 / 2 :: real)" by simp
  have b: "(1 / 2 :: real) \<le> 1" by simp
  have ne: "[1 / 10, 2 / 10, 3 / 10, 4 / 10] \<noteq> ([]::real list)" by simp
  show ?thesis
    by (rule conjI [OF a conjI [OF b conjI [OF ne qsp_polynomial_unitary [OF a b ne]]]])
qed

section \<open>Estimating probabilities on a backend\<close>




section \<open>The order of the calls\<close>

lemma run_logged:
  "run (logged B) c n (s, tr) = (fst (run B c n s), (snd (run B c n s), tr @ [Run c n (fst (run B c n s))]))"
  by (simp add: logged_def split: prod.split)

lemma result_logged:
  "result (logged B) job (s, tr) =
     (fst (result B job s), (snd (result B job s), tr @ [Result job (fst (result B job s))]))"
  by (simp add: logged_def split: prod.split)









text \<open>
  Two runs on concrete backends: a successful sweep with the calls the backend received,
  and a backend whose submission raises.
\<close>

lemma simulate_polynomial_example:
  "simulate_polynomial (logged (fixed_backend [(''0'', 1), (''1'', 3)]))
     (experiment_circuit [1 / 10, 2 / 10]) [1, 1] 4 (0, []) =
   (Inr [1 / 4, 1 / 4],
    (4, [Run [RZ (- (2 / 5)), RX 0, RZ (- (1 / 5))] 4 (Inr [RZ (- (2 / 5)), RX 0, RZ (- (1 / 5))]),
         Run [RZ (- (2 / 5)), RX 0, RZ (- (1 / 5))] 4 (Inr [RZ (- (2 / 5)), RX 0, RZ (- (1 / 5))]),
         Result [RZ (- (2 / 5)), RX 0, RZ (- (1 / 5))] (Inr [(''0'', 1), (''1'', 3)]),
         Result [RZ (- (2 / 5)), RX 0, RZ (- (1 / 5))] (Inr [(''0'', 1), (''1'', 3)])]))"
  by (simp add: simulate_polynomial_def run_logged result_logged fixed_backend_def
      experiment_circuit_def qsp_circuit_def WGate_def SGate_def
      probability_def counts_get_def counts_shots_def)

lemma simulate_polynomial_backend_raises:
  "simulate_polynomial \<lparr>run = (\<lambda>c n s. (Inl BackendError, s)), result = (\<lambda>job s. (Inr [], s))\<rparr>
     (experiment_circuit [1 / 10, 2 / 10]) [1, 1] 4 (0::nat) = (Inl BackendError, 0)"
  by (simp add: simulate_polynomial_def experiment_circuit_def qsp_circuit_def WGate_def SGate_def)


section \<open>The limit of the estimate\<close>

lemma estimate_is_frequency:
  assumes c: "cf x = Inr c" and n: "0 < n"
    and j: "job_counts B c n s = Inr cnt" and t: "counts_shots cnt = n"
  shows "fst (simulate_polynomial B cf [x] n s) = Inr [frequency_zero B c n s]"
    and "estimateProbability B cf x n s = Inr (frequency_zero B c n s)"
proof -
  obtain r s1 where r: "run B c n s = (r, s1)" by (cases "run B c n s")
  from j r obtain job where job: "r = Inr job" and q: "fst (result B job s1) = Inr cnt"
    by (cases r) (simp_all add: job_counts_def)
  obtain s2 where q': "result B job s1 = (Inr cnt, s2)"
    using q by (cases "result B job s1") simp
  have p: "probability cnt = Inr (real (counts_get cnt ''0'' 0) / real n)"
    using n t by (simp add: probability_def)
  show 1: "fst (simulate_polynomial B cf [x] n s) = Inr [frequency_zero B c n s]"
    by (simp add: simulate_polynomial_def c r job q' p frequency_zero_def j)
  show "estimateProbability B cf x n s = Inr (frequency_zero B c n s)"
    by (simp add: estimateProbability_def 1)
qed

lemma estimate_limit:
  assumes c: "cf x = Inr c" and ideal: "ideal_sampler B s c"
  shows "(\<forall>n>0. estimateProbability B cf x n s = Inr (frequency_zero B c n s))"
    and "(\<lambda>n. frequency_zero B c n s) \<longlonglongrightarrow> probability_zero c"
proof -
  show "\<forall>n>0. estimateProbability B cf x n s = Inr (frequency_zero B c n s)"
  proof (intro allI impI)
    fix n :: nat assume n: "0 < n"
    from ideal n obtain cnt where "job_counts B c n s = Inr cnt" "counts_shots cnt = n"
      unfolding ideal_sampler_def by blast
    with c n show "estimateProbability B cf x n s = Inr (frequency_zero B c n s)"
      by (rule estimate_is_frequency(2))
  qed
  show "(\<lambda>n. frequency_zero B c n s) \<longlonglongrightarrow> probability_zero c"
    using ideal by (simp add: ideal_sampler_def)
qed

lemma floor_frequency_limit:
  assumes "0 \<le> p"
  shows "(\<lambda>n. real (nat \<lfloor>real n * p\<rfloor>) / real n) \<longlonglongrightarrow> p"
proof (rule tendsto_sandwich [where f = "\<lambda>n. p - 1 / real n" and h = "\<lambda>n. p"])
  have b: "p - 1 / real n \<le> real (nat \<lfloor>real n * p\<rfloor>) / real n
        \<and> real (nat \<lfloor>real n * p\<rfloor>) / real n \<le> p" if "1 \<le> n" for n :: nat
  proof -
    define K where "K = real (nat \<lfloor>real n * p\<rfloor>)"
    have pos: "0 < real n" using that by simp
    have nn: "0 \<le> real n * p" using assms by simp
    then have k: "K = of_int \<lfloor>real n * p\<rfloor>" by (simp add: K_def)
    have up: "K \<le> p * real n" unfolding k by (simp add: mult.commute)
    have lo: "p * real n - 1 \<le> K" unfolding k by (simp add: mult.commute)
    have 1: "K / real n \<le> p" using up pos by (simp only: pos_divide_le_eq)
    have "p * real n \<le> K + 1" using lo by simp
    then have "p \<le> (K + 1) / real n" using pos by (simp only: pos_le_divide_eq)
    then have 2: "p - 1 / real n \<le> K / real n" by (simp add: add_divide_distrib)
    from 1 2 show ?thesis unfolding K_def by simp
  qed
  show "\<forall>\<^sub>F n in sequentially. p - 1 / real n \<le> real (nat \<lfloor>real n * p\<rfloor>) / real n"
    using b by (intro eventually_sequentiallyI [of 1]) simp
  show "\<forall>\<^sub>F n in sequentially. real (nat \<lfloor>real n * p\<rfloor>) / real n \<le> p"
    using b by (intro eventually_sequentiallyI [of 1]) simp
  have "(\<lambda>n. p - 1 / real n) \<longlonglongrightarrow> p - 0"
    by (intro tendsto_diff tendsto_const lim_1_over_n)
  then show "(\<lambda>n. p - 1 / real n) \<longlonglongrightarrow> p" by simp
  show "(\<lambda>n. p) \<longlonglongrightarrow> p" by simp
qed

lemma job_counts_expected:
  "job_counts expected_backend c n s =
     Inr [(''0'', nat \<lfloor>real n * probability_zero c\<rfloor>),
          (''1'', n - nat \<lfloor>real n * probability_zero c\<rfloor>)]"
  by (simp add: job_counts_def expected_backend_def)

lemma frequency_zero_expected:
  "frequency_zero expected_backend c n s = real (nat \<lfloor>real n * probability_zero c\<rfloor>) / real n"
  by (simp add: frequency_zero_def job_counts_expected counts_get_def)

lemma probability_zero_nonneg: "0 \<le> probability_zero c"
  by (simp add: probability_zero_def)

lemma ideal_sampler_expected:
  assumes "probability_zero c \<le> 1"
  shows "ideal_sampler expected_backend s c"
proof -
  have "nat \<lfloor>real n * probability_zero c\<rfloor> \<le> n" for n :: nat
  proof -
    have "real n * probability_zero c \<le> real n * 1"
      using assms by (intro mult_left_mono) simp_all
    then have "\<lfloor>real n * probability_zero c\<rfloor> \<le> int n" by (simp add: floor_le_iff)
    then show ?thesis by simp
  qed
  then have tot: "counts_shots [(''0'', nat \<lfloor>real n * probability_zero c\<rfloor>),
          (''1'', n - nat \<lfloor>real n * probability_zero c\<rfloor>)] = n" for n :: nat
    by (simp add: counts_shots_def)
  show ?thesis
    unfolding ideal_sampler_def
    by (simp add: job_counts_expected tot frequency_zero_expected
        floor_frequency_limit [OF probability_zero_nonneg] del: of_nat_mult)
qed

lemma su2_top_left_le_1:
  assumes "su2 U"
  shows "(cmod (m00 U))\<^sup>2 \<le> 1"
proof -
  have "m00 U * cnj (m00 U) + m01 U * cnj (m01 U) = 1" using assms by (simp add: su2_def)
  then have "complex_of_real ((cmod (m00 U))\<^sup>2) + complex_of_real ((cmod (m01 U))\<^sup>2) = 1"
    by (simp only: complex_norm_square)
  then have "complex_of_real ((cmod (m00 U))\<^sup>2 + (cmod (m01 U))\<^sup>2) = complex_of_real 1"
    by (simp only: of_real_add of_real_1)
  then have "(cmod (m00 U))\<^sup>2 + (cmod (m01 U))\<^sup>2 = 1"
    by (simp only: of_real_eq_iff)
  moreover have "0 \<le> (cmod (m01 U))\<^sup>2" by simp
  ultimately show ?thesis by linarith
qed

lemma ideal_sampler_expected_qsp:
  assumes "- 1 \<le> x" "x \<le> 1" "phases \<noteq> []" "qsp_circuit x phases = Inr c"
  shows "ideal_sampler expected_backend s c"
proof -
  from qsp_circuit_Operator [OF assms(1-3)] assms(4)
  have "Operator c = spec_unitary (complex_of_real x) phases" by simp
  then have "probability_zero c \<le> 1"
    using su2_top_left_le_1 [OF su2_spec_unitary [OF assms(1,2)], of phases]
    by (simp add: probability_zero_def)
  then show ?thesis by (rule ideal_sampler_expected)
qed

lemma probability_zero_W_half: "probability_zero [RX (- 2 * arccos (1 / 2))] = 1 / 4"
proof -
  have c: "cos (arccos (1 / 2 :: real)) = 1 / 2" by (rule cos_arccos) simp_all
  have "probability_zero [RX (- 2 * arccos (1 / 2))] = (cos (arccos (1 / 2)))\<^sup>2"
    by (simp add: probability_zero_def Operator_single norm_of_real del: cos_arccos)
  then show ?thesis unfolding c by (simp add: power2_eq_square)
qed

lemma estimate_W_half:
  "estimateProbability expected_backend WGate (1 / 2) 1000 () = Inr (1 / 4)"
proof -
  have w: "WGate (1 / 2) = Inr [RX (- 2 * arccos (1 / 2))]" by (simp add: WGate_def)
  have f: "\<lfloor>real 1000 * probability_zero [RX (- 2 * arccos (1 / 2))]\<rfloor> = 250"
    unfolding probability_zero_W_half by simp
  have j: "job_counts expected_backend [RX (- 2 * arccos (1 / 2))] 1000 () =
             Inr [(''0'', 250), (''1'', 750)]"
    unfolding job_counts_expected f by simp
  have t: "counts_shots [(''0'', 250), (''1'', 750)] = 1000" by (simp add: counts_shots_def)
  have "estimateProbability expected_backend WGate (1 / 2) 1000 () =
          Inr (frequency_zero expected_backend [RX (- 2 * arccos (1 / 2))] 1000 ())"
    using w _ j t by (rule estimate_is_frequency(2)) simp
  also have "frequency_zero expected_backend [RX (- 2 * arccos (1 / 2))] 1000 () = 1 / 4"
    unfolding frequency_zero_def j by (simp add: counts_get_def)
  finally show ?thesis .
qed

text \<open>
  Claim C3. For every non-empty phase sequence and every \<open>x\<close> in \<open>[-1, 1]\<close> the squared
  magnitude of the top-left entry returned by \<^verbatim>\<open>qsp_polynomial\<close> is the ideal
  probability of the outcome \<open>0\<close> of the circuit returned by \<^verbatim>\<open>qsp_circuit\<close>, and on a
  backend that samples this circuit ideally it is the limit, as the number of shots tends
  to infinity, of the value that \<^verbatim>\<open>simulate_polynomial\<close> estimates for \<open>x\<close>. For the
  single gate \<^verbatim>\<open>WGate(0.5)\<close> the probability is \<open>cos\<^sup>2(arccos 0.5) = 0.25\<close>, which is
  also the estimate from the expected counts of 1000 shots.
\<close>

theorem squared_magnitude_is_probability:
  assumes "- 1 \<le> x" "x \<le> 1" "phases \<noteq> []"
    and circ: "qsp_circuit x phases = Inr c"
    and ideal: "ideal_sampler B s c"
  shows "(\<exists>circ U p q est. qsp_circuit x phases = Inr circ \<and>
            qsp_polynomial (complex_of_real x) phases = Inr (U, p, q) \<and>
            (cmod p)\<^sup>2 = probability_zero circ \<and>
            (\<forall>n>0. estimateProbability B (experiment_circuit phases) x n s = Inr (est n)) \<and>
            est \<longlonglongrightarrow> (cmod p)\<^sup>2)
       \<and> WGate (1 / 2) = Inr [RX (- 2 * arccos (1 / 2))]
       \<and> probability_zero [RX (- 2 * arccos (1 / 2))] = (cos (arccos (1 / 2)))\<^sup>2
       \<and> (cos (arccos (1 / 2)))\<^sup>2 = (1 / 4 :: real)
       \<and> estimateProbability expected_backend WGate (1 / 2) 1000 () = Inr (1 / 4)"
proof (intro conjI)
  from qsp_circuit_Operator [OF assms(1-3)] circ
  have o: "Operator c = spec_unitary (complex_of_real x) phases"
    by simp
  let ?U = "spec_unitary (complex_of_real x) phases"
  let ?est = "\<lambda>n. frequency_zero B c n s"
  have p: "qsp_polynomial (complex_of_real x) phases = Inr (?U, m00 ?U, m01 ?U)"
    by (rule qsp_polynomial_spec [OF assms(3)])
  have born: "(cmod (m00 ?U))\<^sup>2 = probability_zero c"
    by (simp add: probability_zero_def o)
  have e: "experiment_circuit phases x = Inr c"
    by (simp add: experiment_circuit_def circ)
  have est: "\<forall>n>0. estimateProbability B (experiment_circuit phases) x n s = Inr (?est n)"
    using e ideal by (rule estimate_limit(1) [where cf = "experiment_circuit phases" and x = x])
  have "?est \<longlonglongrightarrow> probability_zero c"
    using e ideal by (rule estimate_limit(2) [where cf = "experiment_circuit phases" and x = x])
  then have lim: "?est \<longlonglongrightarrow> (cmod (m00 ?U))\<^sup>2" by (simp only: born)
  show "\<exists>circ U p q est. qsp_circuit x phases = Inr circ \<and>
            qsp_polynomial (complex_of_real x) phases = Inr (U, p, q) \<and>
            (cmod p)\<^sup>2 = probability_zero circ \<and>
            (\<forall>n>0. estimateProbability B (experiment_circuit phases) x n s = Inr (est n)) \<and>
            est \<longlonglongrightarrow> (cmod p)\<^sup>2"
    by (rule exI [of _ c], rule exI [of _ ?U], rule exI [of _ "m00 ?U"],
        rule exI [of _ "m01 ?U"], rule exI [of _ ?est])
       (intro conjI circ p born est lim)
  show "WGate (1 / 2) = Inr [RX (- 2 * arccos (1 / 2))]"
    by (simp add: WGate_def)
  show "probability_zero [RX (- 2 * arccos (1 / 2))] = (cos (arccos (1 / 2)))\<^sup>2"
    by (simp add: probability_zero_def Operator_single norm_of_real del: cos_arccos)
  have h: "cos (arccos (1 / 2 :: real)) = 1 / 2" by (rule cos_arccos) simp_all
  show "(cos (arccos (1 / 2)))\<^sup>2 = (1 / 4 :: real)"
    unfolding h by (simp add: power2_eq_square)
  show "estimateProbability expected_backend WGate (1 / 2) 1000 () = Inr (1 / 4)"
    by (rule estimate_W_half)
qed

theorem squared_magnitude_is_probability_witness:
  "- 1 \<le> (1 / 2 :: real) \<and> (1 / 2 :: real) \<le> 1 \<and>
   [1 / 10, 2 / 10, 3 / 10, 4 / 10] \<noteq> ([]::real list) \<and>
   qsp_circuit (1 / 2) [1 / 10, 2 / 10, 3 / 10, 4 / 10] =
     Inr (RZ (- 2 * last [1 / 10, 2 / 10, 3 / 10, 4 / 10]) #
          concat (map (\<lambda>phi. [RX (- 2 * arccos (1 / 2)), RZ (- 2 * phi)])
                    (rev (butlast [1 / 10, 2 / 10, 3 / 10, 4 / 10])))) \<and>
   ideal_sampler expected_backend ()
     (RZ (- 2 * last [1 / 10, 2 / 10, 3 / 10, 4 / 10]) #
      concat (map (\<lambda>phi. [RX (- 2 * arccos (1 / 2)), RZ (- 2 * phi)])
                (rev (butlast [1 / 10, 2 / 10, 3 / 10, 4 / 10])))) \<and>
   ((\<exists>circ U p q est. qsp_circuit (1 / 2) [1 / 10, 2 / 10, 3 / 10, 4 / 10] = Inr circ \<and>
            qsp_polynomial (complex_of_real (1 / 2)) [1 / 10, 2 / 10, 3 / 10, 4 / 10] =
              Inr (U, p, q) \<and>
            (cmod p)\<^sup>2 = probability_zero circ \<and>
            (\<forall>n>0. estimateProbability expected_backend
                      (experiment_circuit [1 / 10, 2 / 10, 3 / 10, 4 / 10]) (1 / 2) n () =
                    Inr (est n)) \<and>
            est \<longlonglongrightarrow> (cmod p)\<^sup>2)
       \<and> WGate (1 / 2) = Inr [RX (- 2 * arccos (1 / 2))]
       \<and> probability_zero [RX (- 2 * arccos (1 / 2))] = (cos (arccos (1 / 2)))\<^sup>2
       \<and> (cos (arccos (1 / 2)))\<^sup>2 = (1 / 4 :: real)
       \<and> estimateProbability expected_backend WGate (1 / 2) 1000 () = Inr (1 / 4))"
proof -
  have a: "- 1 \<le> (1 / 2 :: real)" by simp
  have b: "(1 / 2 :: real) \<le> 1" by simp
  have ne: "[1 / 10, 2 / 10, 3 / 10, 4 / 10] \<noteq> ([]::real list)" by simp
  have c: "qsp_circuit (1 / 2) [1 / 10, 2 / 10, 3 / 10, 4 / 10] =
     Inr (RZ (- 2 * last [1 / 10, 2 / 10, 3 / 10, 4 / 10]) #
          concat (map (\<lambda>phi. [RX (- 2 * arccos (1 / 2)), RZ (- 2 * phi)])
                    (rev (butlast [1 / 10, 2 / 10, 3 / 10, 4 / 10]))))"
    by (rule qsp_circuit_shape [OF a b ne])
  have i: "ideal_sampler expected_backend ()
     (RZ (- 2 * last [1 / 10, 2 / 10, 3 / 10, 4 / 10]) #
      concat (map (\<lambda>phi. [RX (- 2 * arccos (1 / 2)), RZ (- 2 * phi)])
                (rev (butlast [1 / 10, 2 / 10, 3 / 10, 4 / 10]))))"
    by (rule ideal_sampler_expected_qsp [OF a b ne c])
  show ?thesis
    by (rule conjI [OF a conjI [OF b conjI [OF ne conjI [OF c conjI [OF i
          squared_magnitude_is_probability [OF a b ne c i]]]]]])
qed

end
